theory Spec2Isabelle
  imports Main
begin

section \<open>The shared atoms (lib/atoms/atoms)\<close>

text \<open>
  The editor keeps its shared state in jotai atoms. A primitive atom holds one value: a
  read returns the value last written, a write replaces it. The whole store is modelled
  as one record with a field per atom; the setter of an atom is a record update.
\<close>

record Position =
  row :: int
  col :: int

record ParseError =
  summary :: string
  position :: Position
  success :: bool

definition DEFAULT_SHADER :: string where
  "DEFAULT_SHADER =
     ''\<newline>'' @
     ''@stage(compute) @workgroup_size(16, 16)\<newline>'' @
     ''fn main_image(@builtin(global_invocation_id) id: uint3) {\<newline>'' @
     ''    // Viewport resolution (in pixels)\<newline>'' @
     ''    let screen_size = uint2(textureDimensions(screen));\<newline>'' @
     ''\<newline>'' @
     ''    // Prevent overdraw for workgroups on the edge of the viewport\<newline>'' @
     ''    if (id.x >= screen_size.x || id.y >= screen_size.y) { return; }\<newline>'' @
     ''\<newline>'' @
     ''    // Pixel coordinates (centre of pixel, origin at bottom left)\<newline>'' @
     ''    let fragCoord = float2(float(id.x) + .5, float(screen_size.y - id.y) - .5);\<newline>'' @
     ''\<newline>'' @
     ''    // Normalised pixel coordinates (from 0 to 1)\<newline>'' @
     ''    let uv = fragCoord / float2(screen_size);\<newline>'' @
     ''\<newline>'' @
     ''    // Time varying pixel colour\<newline>'' @
     ''    var col = .5 + .5 * cos(time.elapsed + uv.xyx + float3(0.,2.,4.));\<newline>'' @
     ''\<newline>'' @
     ''    // Convert from gamma-encoded to linear colour space\<newline>'' @
     ''    col = pow(col, float3(2.2));\<newline>'' @
     ''\<newline>'' @
     ''    // Output to screen (linear colour space)\<newline>'' @
     ''    textureStore(screen, int2(id.xy), float4(col, 1.));\<newline>'' @
     ''}\<newline>''"

text \<open>
  The type of the slider references (\<open>UniformSliderRef\<close>) is declared in another
  module; the store is polymorphic in it. \<open>entryPointsAtom\<close> starts as the empty list
  with no declared element type; its elements are taken to be the entry point names.
\<close>

record 'r Atoms =
  codeAtom :: string
  playAtom :: bool
  resetAtom :: bool
  hotReloadAtom :: bool
  manualReloadAtom :: bool
  parseErrorAtom :: ParseError
  loadedTexturesAtom :: "string list"
  entryPointsAtom :: "string list"
  sliderRefMapAtom :: "string \<rightharpoonup> 'r"

definition initialAtoms :: "'r Atoms" where
  "initialAtoms =
     \<lparr> codeAtom = DEFAULT_SHADER,
       playAtom = True,
       resetAtom = False,
       hotReloadAtom = False,
       manualReloadAtom = False,
       parseErrorAtom = \<lparr> summary = [], position = \<lparr> row = 0, col = 0 \<rparr>, success = True \<rparr>,
       loadedTexturesAtom = [''/textures/blank.png'', ''/textures/blank.png''],
       entryPointsAtom = [],
       sliderRefMapAtom = Map.empty \<rparr>"

text \<open>
  \<open>setCode\<close> is the setter of \<open>codeAtom\<close> that the editor's \<open>onChange\<close> calls with
  the new text.
\<close>

definition setCode :: "string \<Rightarrow> 'r Atoms \<Rightarrow> 'r Atoms" where
  "setCode v a = a\<lparr> codeAtom := v \<rparr>"

section \<open>The editor component (components/editor/monaco)\<close>

subsection \<open>The text model of the editor, as the component reads it\<close>

text \<open>
  The component reads the document through three methods of the editor's text model
  (an external library): \<open>getLineCount\<close>, \<open>getLineMaxColumn\<close> and
  \<open>getLineFirstNonWhitespaceColumn\<close>. The document is the list of its lines. Lines and
  columns are numbered from 1; a method that takes a line number throws
  "Illegal value for lineNumber" unless \<open>1 \<le> lineNumber \<le> getLineCount\<close>. The maximum
  column of a line is its length plus one. The first non-whitespace column is the column
  of the first character that is neither a space nor a tab, and 0 when the line has none.
  A text model of the editor always has at least one line (the empty document is one
  empty line); theorems that need it assume \<open>model \<noteq> []\<close>.
\<close>

type_synonym TextModel = "string list"

datatype error = IllegalLineNumber

definition getLineCount :: "TextModel \<Rightarrow> int" where
  "getLineCount model = int (length model)"

definition getLineContent :: "TextModel \<Rightarrow> int \<Rightarrow> error + string" where
  "getLineContent model lineNumber =
     (if lineNumber < 1 \<or> lineNumber > getLineCount model then Inl IllegalLineNumber
      else Inr (model ! nat (lineNumber - 1)))"

definition getLineMaxColumn :: "TextModel \<Rightarrow> int \<Rightarrow> error + int" where
  "getLineMaxColumn model lineNumber =
     (case getLineContent model lineNumber of
        Inl e \<Rightarrow> Inl e
      | Inr content \<Rightarrow> Inr (int (length content) + 1))"

fun firstNonWhitespaceIndex :: "string \<Rightarrow> int" where
  "firstNonWhitespaceIndex [] = - 1"
| "firstNonWhitespaceIndex (c # cs) =
     (if c \<noteq> CHR '' '' \<and> c \<noteq> CHR 0x09 then 0
      else (let r = firstNonWhitespaceIndex cs in if r = - 1 then - 1 else r + 1))"

definition getLineFirstNonWhitespaceColumn :: "TextModel \<Rightarrow> int \<Rightarrow> error + int" where
  "getLineFirstNonWhitespaceColumn model lineNumber =
     (case getLineContent model lineNumber of
        Inl e \<Rightarrow> Inl e
      | Inr content \<Rightarrow>
          (let result = firstNonWhitespaceIndex content
           in if result = - 1 then Inr 0 else Inr (result + 1)))"

subsection \<open>Markers\<close>

datatype MarkerSeverity = Hint | Info | Warning | Error

record Marker =
  startLineNumber :: int
  startColumn :: int
  endLineNumber :: int
  endColumn :: int
  message :: string
  severity :: MarkerSeverity

subsection \<open>The effect on \<open>parseError\<close>\<close>

text \<open>
  \<open>mapToMarkers\<close> is the body of the effect that runs whenever \<open>parseError\<close> changes:
  the list it hands to \<open>setModelMarkers\<close>, in the order of the source's branches. The
  range test is made on the reported row; the row is advanced inside the in-range
  branch. A throw of the text model is the value \<open>Inl\<close>.
\<close>

definition mapToMarkers :: "ParseError \<Rightarrow> TextModel \<Rightarrow> error + Marker list" where
  "mapToMarkers parseError model =
     (let line = row (position parseError) in
      if success parseError then Inr []
      else if 0 < line \<and> line < getLineCount model then
        (case getLineMaxColumn model line of
           Inl e \<Rightarrow> Inl e
         | Inr maxColumn \<Rightarrow>
             (let line' = (if col (position parseError) = maxColumn then line + 1 else line) in
              case getLineFirstNonWhitespaceColumn model line' of
                Inl e \<Rightarrow> Inl e
              | Inr firstColumn \<Rightarrow>
                  (case getLineMaxColumn model line' of
                     Inl e \<Rightarrow> Inl e
                   | Inr lastColumn \<Rightarrow>
                       Inr [\<lparr> startLineNumber = line',
                              startColumn = firstColumn,
                              endLineNumber = line',
                              endColumn = lastColumn,
                              message = summary parseError,
                              severity = Error \<rparr>])))
      else
        (case getLineMaxColumn model (getLineCount model) of
           Inl e \<Rightarrow> Inl e
         | Inr lastColumn \<Rightarrow>
             Inr [\<lparr> startLineNumber = 1,
                    startColumn = 1,
                    endLineNumber = getLineCount model,
                    endColumn = lastColumn,
                    message = summary parseError,
                    severity = Error \<rparr>]))"

text \<open>
  The editor as the effect sees it: the text model and the markers of the owner
  \<open>''owner''\<close>. \<open>monacoRef\<close> is \<open>None\<close> until the editor has mounted, and the effect does
  nothing then, nor when \<open>parseError\<close> is absent; otherwise \<open>setModelMarkers\<close> replaces
  the owner's markers. \<open>modelMarkers\<close> is the list last handed to \<open>setModelMarkers\<close>:
  what the editor makes of a marker afterwards (it may adjust a column or leave out a
  marker without a message) is outside this model; for the empty list there is nothing
  to adjust.
\<close>

record Editor =
  textModel :: TextModel
  modelMarkers :: "Marker list"

definition setModelMarkers :: "Editor \<Rightarrow> Marker list \<Rightarrow> Editor" where
  "setModelMarkers monaco ms = monaco\<lparr> modelMarkers := ms \<rparr>"

definition parseErrorEffect :: "Editor option \<Rightarrow> ParseError option \<Rightarrow> error + Editor option" where
  "parseErrorEffect monacoRef parseError =
     (case monacoRef of
        None \<Rightarrow> Inr monacoRef
      | Some monaco \<Rightarrow>
          (case parseError of
             None \<Rightarrow> Inr monacoRef
           | Some pe \<Rightarrow>
               (case mapToMarkers pe (textModel monaco) of
                  Inl e \<Rightarrow> Inl e
                | Inr ms \<Rightarrow> Inr (Some (setModelMarkers monaco ms)))))"

subsection \<open>The marker mapping in the words of the specification\<close>

text \<open>
  The specification (4.2) describes the mapping in another order than the component: the
  row is corrected first, and the range test is made on the corrected row. The
  definitions of this subsection follow the specification's words, to be compared with
  \<open>mapToMarkers\<close>. The corrected row is the reported row, advanced by one when \<open>col\<close>
  equals the maximum column of the reported row; a row that is no line of the document
  has no maximum column, so it is never advanced.
\<close>

definition correctedRow :: "ParseError \<Rightarrow> TextModel \<Rightarrow> int" where
  "correctedRow diagnostic model =
     (let r = row (position diagnostic)
      in if getLineMaxColumn model r = Inr (col (position diagnostic)) then r + 1 else r)"

text \<open>The marker of one line: from its first non-whitespace column to its maximum column.\<close>

definition lineMarker :: "ParseError \<Rightarrow> TextModel \<Rightarrow> int \<Rightarrow> error + Marker list" where
  "lineMarker diagnostic model r =
     (case getLineFirstNonWhitespaceColumn model r of
        Inl e \<Rightarrow> Inl e
      | Inr firstColumn \<Rightarrow>
          (case getLineMaxColumn model r of
             Inl e \<Rightarrow> Inl e
           | Inr lastColumn \<Rightarrow>
               Inr [\<lparr> startLineNumber = r, startColumn = firstColumn,
                      endLineNumber = r, endColumn = lastColumn,
                      message = summary diagnostic, severity = Error \<rparr>]))"

text \<open>The fallback marker: line 1, column 1 through the maximum column of the last line.\<close>

definition wholeDocumentMarker :: "ParseError \<Rightarrow> TextModel \<Rightarrow> error + Marker list" where
  "wholeDocumentMarker diagnostic model =
     (case getLineMaxColumn model (getLineCount model) of
        Inl e \<Rightarrow> Inl e
      | Inr lastColumn \<Rightarrow>
          Inr [\<lparr> startLineNumber = 1, startColumn = 1,
                 endLineNumber = getLineCount model, endColumn = lastColumn,
                 message = summary diagnostic, severity = Error \<rparr>])"

definition mapToMarkers_spec :: "ParseError \<Rightarrow> TextModel \<Rightarrow> error + Marker list" where
  "mapToMarkers_spec diagnostic model =
     (if success diagnostic then Inr []
      else (let r = correctedRow diagnostic model
            in if 1 \<le> r \<and> r < getLineCount model then lineMarker diagnostic model r
               else wholeDocumentMarker diagnostic model))"

section \<open>The compile round trip and the registries, after the specification\<close>

text \<open>
  The source files at hand declare the atoms that hold the entry points, the slider
  references and the textures, and the editor that reports edits and shows markers. The
  code that submits the text to the compiler, receives its results and rebuilds the
  slider map is not among them. The definitions of this section model that part from
  the specification (sections 3, 4.3, 4.4, 4.5 and 6), in its names. The code store is
  among the source files: it is taken as the code has it, the text alone.
\<close>

subsection \<open>The UI control boundary\<close>

type_synonym ControlHandle = nat

text \<open>
  Modelled from the spec: the declaration of a uniform (section 3, UniformDeclaration);
  the module that declares uniforms is missing. Values and range bounds are integers
  here: no claim computes with them.
\<close>

record UniformDeclaration =
  uniformName :: string
  defaultValue :: int
  declaredRange :: "int \<times> int"

text \<open>
  Modelled from the spec: the UI layer that owns the controls (section 6, UI control
  boundary); the slider component is missing. A control keeps its current value (the
  one the user adjusts) and its range; handles are allocated in sequence.
\<close>

record Control =
  controlName :: string
  controlValue :: int
  controlRange :: "int \<times> int"

record UILayer =
  controls :: "ControlHandle \<rightharpoonup> Control"
  nextHandle :: ControlHandle

text \<open>
  Modelled from the spec: \<open>createControl(name, default, range) -> ControlHandle\<close> of
  the missing UI layer (section 6): a new control, seeded with the declared default and
  range, under a handle not used before.
\<close>

definition createControl ::
  "UILayer \<Rightarrow> string \<Rightarrow> int \<Rightarrow> int \<times> int \<Rightarrow> ControlHandle \<times> UILayer" where
  "createControl ui n d r =
     (nextHandle ui,
      ui\<lparr> controls := (controls ui)(nextHandle ui \<mapsto>
                          \<lparr> controlName = n, controlValue = d, controlRange = r \<rparr>),
          nextHandle := nextHandle ui + 1 \<rparr>)"

text \<open>
  Modelled from the spec: \<open>updateControlRange(handle, range)\<close> of the missing UI layer
  (section 6): the range of the control changes, its value does not.
\<close>

definition updateControlRange :: "UILayer \<Rightarrow> ControlHandle \<Rightarrow> int \<times> int \<Rightarrow> UILayer" where
  "updateControlRange ui h r =
     (case controls ui h of
        None \<Rightarrow> ui
      | Some c \<Rightarrow> ui\<lparr> controls := (controls ui)(h \<mapsto> c\<lparr> controlRange := r \<rparr>) \<rparr>)"

text \<open>
  Modelled from the spec: \<open>disposeControl(handle)\<close> of the missing UI layer (section 6):
  the control is gone.
\<close>

definition disposeControl :: "UILayer \<Rightarrow> ControlHandle \<Rightarrow> UILayer" where
  "disposeControl ui h = ui\<lparr> controls := (controls ui)(h := None) \<rparr>"

subsection \<open>Reconciliation of the uniform bindings\<close>

text \<open>
  The registry associates uniform names with control handles, in insertion order (the
  atom holds a JavaScript \<open>Map\<close>); a lookup is \<open>map_of\<close>.
\<close>

type_synonym UniformBindingRegistry = "(string \<times> ControlHandle) list"

text \<open>
  Modelled from the spec: the first half of the reconciliation (4.3, step 2), whose code
  is missing: a declared name absent from the registry gets a newly created control; a
  declared name present in it keeps its handle, and the range of its control is updated.
\<close>

fun addDeclared ::
  "UniformDeclaration list \<Rightarrow> UniformBindingRegistry \<times> UILayer \<Rightarrow>
   UniformBindingRegistry \<times> UILayer" where
  "addDeclared [] (reg, ui) = (reg, ui)"
| "addDeclared (d # ds) (reg, ui) =
     (case map_of reg (uniformName d) of
        Some h \<Rightarrow> addDeclared ds (reg, updateControlRange ui h (declaredRange d))
      | None \<Rightarrow>
          (case createControl ui (uniformName d) (defaultValue d) (declaredRange d) of
             (h, ui') \<Rightarrow> addDeclared ds (reg @ [(uniformName d, h)], ui')))"

text \<open>
  Modelled from the spec: the second half of the reconciliation (4.3, step 2), whose
  code is missing: an association whose name is not declared any more is removed, and
  its control is handed to the UI layer for disposal (section 6; the example of section
  8 has the control of the removed name disposed).
\<close>

fun removeUndeclared ::
  "string list \<Rightarrow> UniformBindingRegistry \<Rightarrow> UILayer \<Rightarrow> UniformBindingRegistry \<times> UILayer" where
  "removeUndeclared names [] ui = ([], ui)"
| "removeUndeclared names ((n, h) # rest) ui =
     (if n \<in> set names
      then (case removeUndeclared names rest ui of (reg', ui') \<Rightarrow> ((n, h) # reg', ui'))
      else removeUndeclared names rest (disposeControl ui h))"

text \<open>
  Modelled from the spec: the reconciliation of UniformBindingRegistry against the
  uniforms of a successful result (4.3, step 2); the code that rebuilds the slider map
  is missing.
\<close>

definition reconcile ::
  "UniformDeclaration list \<Rightarrow> UniformBindingRegistry \<times> UILayer \<Rightarrow>
   UniformBindingRegistry \<times> UILayer" where
  "reconcile decls st =
     (case addDeclared decls st of
        (reg1, ui1) \<Rightarrow> removeUndeclared (map uniformName decls) reg1 ui1)"

text \<open>
  The invariant of the registry: a name has one association, a handle serves one name,
  and every handle was allocated by the UI layer. The empty registry has it and
  \<open>reconcile\<close> keeps it.
\<close>

definition wellFormed :: "UniformBindingRegistry \<Rightarrow> UILayer \<Rightarrow> bool" where
  "wellFormed reg ui =
     (distinct (map fst reg) \<and> distinct (map snd reg) \<and>
      list_all (\<lambda>e. snd e < nextHandle ui) reg)"

subsection \<open>The controller\<close>

text \<open>
  Modelled from the spec: the entry points and results of the compiler (section 3,
  EntryPointDescriptor and CompileResult); the module that talks to the compiler is
  missing. A diagnostic has the shape of \<open>ParseError\<close>.
\<close>

datatype EntryPointKind = ImageEntry | ComputeEntry | BufferEntry

record EntryPointDescriptor =
  entryName :: string
  entryKind :: EntryPointKind

type_synonym Diagnostic = ParseError

datatype CompileResult =
    Success "EntryPointDescriptor list" "UniformDeclaration list"
  | Failure Diagnostic

text \<open>
  Modelled from the spec: the state of the core (sections 3 and 4): the runtime flags,
  the logical mode, the revision of the latest submitted request, the requests sent so
  far, the three registries with the UI layer, and the stored diagnostic. The
  controller itself is missing from the source files. The text of the code store is
  part of the state; it has no revision beside it, as \<open>codeAtom\<close> has none.
\<close>

record RuntimeFlags =
  playing :: bool
  resetRequested :: bool
  hotReload :: bool
  manualReloadRequested :: bool

datatype Mode = Idle | Playing | Paused | CompilePending | Errored

record Core =
  sourceText :: string
  flags :: RuntimeFlags
  mode :: Mode
  latestSubmitted :: "nat option"
  submitted :: "(string \<times> nat) list"
  entryPointRegistry :: "EntryPointDescriptor list"
  uniformBindingRegistry :: UniformBindingRegistry
  uiLayer :: UILayer
  textureSlotRegistry :: "string list"
  diagnostic :: Diagnostic

definition noError :: Diagnostic where
  "noError = \<lparr> summary = [], position = \<lparr> row = 0, col = 0 \<rparr>, success = True \<rparr>"

text \<open>
  The code store inside the core, as the code has it: \<open>setText\<close> replaces the text and
  nothing else, as \<open>setCode\<close> does on \<open>codeAtom\<close>, and \<open>snapshot\<close> is a read of the
  store, which returns the text alone. No revision is kept or incremented.
\<close>

definition setText :: "string \<Rightarrow> Core \<Rightarrow> Core" where
  "setText t s = s\<lparr> sourceText := t \<rparr>"

definition snapshot :: "Core \<Rightarrow> string" where
  "snapshot s = sourceText s"

text \<open>
  Modelled from the spec: the submission of a compile request by the missing
  controller (4.4, section 6). A request is a source text with a revision. The text is
  the snapshot of the code store; the store has no revision to give, so the revision
  \<open>r\<close> of the request comes with the submission. It becomes the latest submitted
  revision, and the manual-reload flag is cleared.
\<close>

definition submitCompile :: "nat \<Rightarrow> Core \<Rightarrow> Core" where
  "submitCompile r s =
     s\<lparr> latestSubmitted := Some r,
        submitted := submitted s @ [(snapshot s, r)],
        flags := (flags s)\<lparr> manualReloadRequested := False \<rparr>,
        mode := CompilePending \<rparr>"

text \<open>
  Modelled from the spec: the arrival of a compile result for revision \<open>r\<close> at the
  missing controller (4.4, section 5): a result whose revision is not the latest
  submitted one is discarded; a success replaces the entry points, reconciles the
  uniform bindings and clears the diagnostic; a failure stores the diagnostic and
  leaves the registries as they are.
\<close>

definition onCompileResult :: "nat \<Rightarrow> CompileResult \<Rightarrow> Core \<Rightarrow> Core" where
  "onCompileResult r res s =
     (if latestSubmitted s \<noteq> Some r then s
      else (case res of
              Success eps unis \<Rightarrow>
                (case reconcile unis (uniformBindingRegistry s, uiLayer s) of
                   (reg', ui') \<Rightarrow>
                     s\<lparr> entryPointRegistry := eps,
                        uniformBindingRegistry := reg',
                        uiLayer := ui',
                        mode := (if playing (flags s) then Playing else Paused),
                        diagnostic := noError \<rparr>)
            | Failure d \<Rightarrow> s\<lparr> diagnostic := d, mode := Errored \<rparr>))"

text \<open>
  Modelled from the spec: \<open>setSlot(index, resourceId)\<close> of TextureSlotRegistry (4.5);
  the texture picker is missing. An index beyond the slots changes nothing.
\<close>

definition setSlot :: "nat \<Rightarrow> string \<Rightarrow> Core \<Rightarrow> Core" where
  "setSlot i resourceId s =
     s\<lparr> textureSlotRegistry := (textureSlotRegistry s)[i := resourceId] \<rparr>"

text \<open>
  Modelled from the spec: the events of the single stream that drives the missing
  controller (section 5), and the run of a sequence of them. An edit replaces the text;
  a manual reload raises its flag; a submission may follow at any point, with any
  revision (when the missing controller submits, after an edit under hot reload or on
  a manual reload, is not fixed here); compile results may arrive in any order and for
  any revision. An interleaving is a list of events.
\<close>

datatype Event =
    Edit string
  | ManualReload
  | Submit nat
  | SetHotReload bool
  | SetPlaying bool
  | RequestReset
  | AcknowledgeReset
  | CompileResponse nat CompileResult
  | SetSlot nat string

fun step :: "Event \<Rightarrow> Core \<Rightarrow> Core" where
  "step (Edit t) s = setText t s"
| "step ManualReload s = s\<lparr> flags := (flags s)\<lparr> manualReloadRequested := True \<rparr> \<rparr>"
| "step (Submit r) s = submitCompile r s"
| "step (SetHotReload b) s = s\<lparr> flags := (flags s)\<lparr> hotReload := b \<rparr> \<rparr>"
| "step (SetPlaying b) s = s\<lparr> flags := (flags s)\<lparr> playing := b \<rparr> \<rparr>"
| "step RequestReset s = s\<lparr> flags := (flags s)\<lparr> resetRequested := True \<rparr> \<rparr>"
| "step AcknowledgeReset s = s\<lparr> flags := (flags s)\<lparr> resetRequested := False \<rparr> \<rparr>"
| "step (CompileResponse r res) s = onCompileResult r res s"
| "step (SetSlot i resourceId) s = setSlot i resourceId s"

definition run :: "Event list \<Rightarrow> Core \<Rightarrow> Core" where
  "run es s = fold step es s"

section \<open>Example inputs\<close>

text \<open>
  Three documents: one of three lines; one of ten lines whose line 5 is a space and one
  character (first non-whitespace column 2, maximum column 3); one of ten lines whose
  line 5 is longer (first non-whitespace column 2, maximum column 12).
\<close>

definition doc3 :: TextModel where
  "doc3 = [''fn f() {'', ''  return 1'', ''}'']"

definition doc10 :: TextModel where
  "doc10 = [''a'', ''b'', ''c'', ''d'', '' x'', ''    f'', ''g'', ''h'', ''i;'', ''}'']"

definition doc10b :: TextModel where
  "doc10b = [''a'', ''b'', ''c'', ''d'', '' let y = 1;'', ''    f'', ''g'', ''h'', ''i;'', ''}'']"

definition failureAt :: "int \<Rightarrow> int \<Rightarrow> ParseError" where
  "failureAt r c = \<lparr> summary = ''expected ;'', position = \<lparr> row = r, col = c \<rparr>, success = False \<rparr>"

text \<open>
  A registry with the uniforms \<open>a\<close> and \<open>b\<close>, whose sliders the user has moved to 3
  and 7, and declarations of \<open>b\<close> and \<open>c\<close>.
\<close>

definition regAB :: UniformBindingRegistry where
  "regAB = [(''a'', 0), (''b'', 1)]"

definition uiAB :: UILayer where
  "uiAB =
     \<lparr> controls = [0 \<mapsto> \<lparr> controlName = ''a'', controlValue = 3, controlRange = (0, 10) \<rparr>,
                   1 \<mapsto> \<lparr> controlName = ''b'', controlValue = 7, controlRange = (0, 10) \<rparr>],
       nextHandle = 2 \<rparr>"

definition declsBC :: "UniformDeclaration list" where
  "declsBC = [\<lparr> uniformName = ''b'', defaultValue = 5, declaredRange = (0, 20) \<rparr>,
             \<lparr> uniformName = ''c'', defaultValue = 1, declaredRange = (0, 2) \<rparr>]"

section \<open>Facts about the text model\<close>

lemmas model_simps = getLineCount_def getLineMaxColumn_def getLineContent_def
  getLineFirstNonWhitespaceColumn_def

lemma getLineContent_valid:
  "1 \<le> n \<Longrightarrow> n \<le> getLineCount m \<Longrightarrow> getLineContent m n = Inr (m ! nat (n - 1))"
  by (simp add: getLineContent_def)

lemma getLineContent_invalid:
  "n < 1 \<or> getLineCount m < n \<Longrightarrow> getLineContent m n = Inl IllegalLineNumber"
  by (auto simp add: getLineContent_def)

lemma getLineMaxColumn_valid:
  "1 \<le> n \<Longrightarrow> n \<le> getLineCount m \<Longrightarrow>
   getLineMaxColumn m n = Inr (int (length (m ! nat (n - 1))) + 1)"
  by (simp add: getLineMaxColumn_def getLineContent_valid)

lemma getLineMaxColumn_invalid:
  "n < 1 \<or> getLineCount m < n \<Longrightarrow> getLineMaxColumn m n = Inl IllegalLineNumber"
  by (simp add: getLineMaxColumn_def getLineContent_invalid)

lemma getLineFirstNonWhitespaceColumn_valid:
  "1 \<le> n \<Longrightarrow> n \<le> getLineCount m \<Longrightarrow>
   \<exists>c. getLineFirstNonWhitespaceColumn m n = Inr c"
  by (simp add: getLineFirstNonWhitespaceColumn_def getLineContent_valid Let_def)

section \<open>The two branches of the effect\<close>

text \<open>
  With the reported row in range the component never asks the text model for a line it
  does not have: the advanced row is at most the line count.
\<close>

lemma mapToMarkers_in_range:
  assumes "\<not> success d" "0 < row (position d)" "row (position d) < getLineCount m"
  shows "mapToMarkers d m =
           lineMarker d m (if getLineMaxColumn m (row (position d)) = Inr (col (position d))
                           then row (position d) + 1 else row (position d))"
proof -
  have v: "getLineMaxColumn m (row (position d)) =
            Inr (int (length (m ! nat (row (position d) - 1))) + 1)"
    using assms by (intro getLineMaxColumn_valid) auto
  show ?thesis
    using assms by (auto simp add: mapToMarkers_def lineMarker_def v Let_def)
qed

lemma mapToMarkers_out_of_range:
  assumes "\<not> success d" "\<not> (0 < row (position d) \<and> row (position d) < getLineCount m)"
  shows "mapToMarkers d m = wholeDocumentMarker d m"
  using assms by (auto simp add: mapToMarkers_def wholeDocumentMarker_def Let_def)

lemma lineMarker_valid:
  assumes "1 \<le> r" "r \<le> getLineCount m"
  shows "\<exists>sc ec. getLineFirstNonWhitespaceColumn m r = Inr sc \<and> getLineMaxColumn m r = Inr ec \<and>
           lineMarker d m r = Inr [\<lparr> startLineNumber = r, startColumn = sc,
                      endLineNumber = r, endColumn = ec,
                      message = summary d, severity = Error \<rparr>]"
proof -
  obtain sc where sc: "getLineFirstNonWhitespaceColumn m r = Inr sc"
    using getLineFirstNonWhitespaceColumn_valid [OF assms] by blast
  show ?thesis
    by (simp add: lineMarker_def sc getLineMaxColumn_valid [OF assms])
qed

lemma wholeDocumentMarker_valid:
  assumes "m \<noteq> []"
  shows "\<exists>ec. getLineMaxColumn m (getLineCount m) = Inr ec \<and>
           wholeDocumentMarker d m = Inr [\<lparr> startLineNumber = 1, startColumn = 1,
                 endLineNumber = getLineCount m, endColumn = ec,
                 message = summary d, severity = Error \<rparr>]"
proof -
  have "1 \<le> getLineCount m" using assms by (cases m) (simp_all add: getLineCount_def)
  then show ?thesis
    by (simp add: wholeDocumentMarker_def getLineMaxColumn_valid)
qed

lemma correctedRow_cases:
  "correctedRow d m = (if 1 \<le> row (position d) \<and> row (position d) \<le> getLineCount m \<and>
       col (position d) = int (length (m ! nat (row (position d) - 1))) + 1
     then row (position d) + 1 else row (position d))"
proof (cases "1 \<le> row (position d) \<and> row (position d) \<le> getLineCount m")
  case True
  then show ?thesis
    by (auto simp add: correctedRow_def Let_def getLineMaxColumn_valid)
next
  case False
  then have "getLineMaxColumn m (row (position d)) = Inl IllegalLineNumber"
    by (intro getLineMaxColumn_invalid) auto
  with False show ?thesis
    by (auto simp add: correctedRow_def Let_def)
qed

lemma correctedRow_in_range:
  assumes "1 \<le> correctedRow d m" "correctedRow d m < getLineCount m"
  shows "0 < row (position d) \<and> row (position d) < getLineCount m \<and>
         correctedRow d m = (if getLineMaxColumn m (row (position d)) = Inr (col (position d))
                           then row (position d) + 1 else row (position d))"
  using assms by (auto simp add: correctedRow_cases getLineMaxColumn_valid split: if_splits)

section \<open>Facts about the reconciliation\<close>

lemma updateControlRange_next [simp]: "nextHandle (updateControlRange ui h r) = nextHandle ui"
  by (simp add: updateControlRange_def split: option.splits)

lemma updateControlRange_value:
  "map_option controlValue (controls (updateControlRange ui h r) k) =
   map_option controlValue (controls ui k)"
  by (simp add: updateControlRange_def split: option.splits)

lemma updateControlRange_dom:
  "(controls (updateControlRange ui h r) k = None) = (controls ui k = None)"
  by (simp add: updateControlRange_def split: option.splits)

lemma addDeclared_next: "nextHandle ui \<le> nextHandle (snd (addDeclared ds (reg, ui)))"
proof (induction ds arbitrary: reg ui)
  case Nil
  then show ?case by simp
next
  case (Cons d ds)
  show ?case
  proof (cases "map_of reg (uniformName d)")
    case None
    have "nextHandle ui \<le>
          nextHandle (snd (createControl ui (uniformName d) (defaultValue d) (declaredRange d)))"
      by (simp add: createControl_def)
    also have "\<dots> \<le> nextHandle (snd (addDeclared ds (reg @ [(uniformName d, nextHandle ui)],
        snd (createControl ui (uniformName d) (defaultValue d) (declaredRange d)))))"
      by (rule Cons.IH)
    finally show ?thesis using None by (simp add: createControl_def)
  next
    case (Some h)
    then show ?thesis
      using Cons.IH [where ui = "updateControlRange ui h (declaredRange d)" and reg = reg]
      by simp
  qed
qed

lemma addDeclared_keeps:
  "map_of reg n = Some h \<Longrightarrow> map_of (fst (addDeclared ds (reg, ui))) n = Some h"
proof (induction ds arbitrary: reg ui)
  case Nil
  then show ?case by simp
next
  case (Cons d ds)
  show ?case
  proof (cases "map_of reg (uniformName d)")
    case None
    have "map_of (reg @ [(uniformName d, nextHandle ui)]) n = Some h"
      using Cons.prems by (simp add: map_add_Some_iff)
    from Cons.IH [OF this] show ?thesis using None by (simp add: createControl_def)
  next
    case (Some h')
    then show ?thesis using Cons.IH [OF Cons.prems] by simp
  qed
qed

lemma addDeclared_creates:
  "n \<in> set (map uniformName ds) \<Longrightarrow> map_of reg n = None \<Longrightarrow>
   \<exists>h. map_of (fst (addDeclared ds (reg, ui))) n = Some h \<and> nextHandle ui \<le> h \<and>
       h < nextHandle (snd (addDeclared ds (reg, ui)))"
proof (induction ds arbitrary: reg ui)
  case Nil
  then show ?case by simp
next
  case (Cons d ds)
  let ?ui' = "snd (createControl ui (uniformName d) (defaultValue d) (declaredRange d))"
  let ?reg' = "reg @ [(uniformName d, nextHandle ui)]"
  show ?case
  proof (cases "map_of reg (uniformName d)")
    case None
    have unfolded: "addDeclared (d # ds) (reg, ui) = addDeclared ds (?reg', ?ui')"
      using None by (simp add: createControl_def)
    have nx: "nextHandle ?ui' = nextHandle ui + 1" by (simp add: createControl_def)
    show ?thesis
    proof (cases "n = uniformName d")
      case True
      have "map_of ?reg' n = Some (nextHandle ui)" using True None by (simp add: map_add_Some_iff)
      then have "map_of (fst (addDeclared ds (?reg', ?ui'))) n = Some (nextHandle ui)"
        by (rule addDeclared_keeps)
      moreover have "nextHandle ?ui' \<le> nextHandle (snd (addDeclared ds (?reg', ?ui')))"
        by (rule addDeclared_next)
      ultimately show ?thesis using unfolded nx by auto
    next
      case False
      then have "n \<in> set (map uniformName ds)" using Cons.prems by auto
      moreover have "map_of ?reg' n = None" using False Cons.prems by (simp add: map_add_def)
      ultimately obtain h where "map_of (fst (addDeclared ds (?reg', ?ui'))) n = Some h"
        "nextHandle ?ui' \<le> h" "h < nextHandle (snd (addDeclared ds (?reg', ?ui')))"
        using Cons.IH [where reg = ?reg' and ui = ?ui'] by blast
      then show ?thesis using unfolded nx by auto
    qed
  next
    case (Some h')
    then have "n \<noteq> uniformName d" using Cons.prems by auto
    then have "n \<in> set (map uniformName ds)" using Cons.prems by auto
    from Cons.IH [OF this Cons.prems(2), where ui = "updateControlRange ui h' (declaredRange d)"]
    show ?thesis using Some by simp
  qed
qed

lemma addDeclared_value:
  "h < nextHandle ui \<Longrightarrow>
   map_option controlValue (controls (snd (addDeclared ds (reg, ui))) h) =
   map_option controlValue (controls ui h)"
proof (induction ds arbitrary: reg ui)
  case Nil
  then show ?case by simp
next
  case (Cons d ds)
  let ?ui' = "snd (createControl ui (uniformName d) (defaultValue d) (declaredRange d))"
  show ?case
  proof (cases "map_of reg (uniformName d)")
    case None
    have "h < nextHandle ?ui'" using Cons.prems by (simp add: createControl_def)
    from Cons.IH [OF this, where reg = "reg @ [(uniformName d, nextHandle ui)]"]
    show ?thesis using None Cons.prems by (simp add: createControl_def)
  next
    case (Some h')
    have "h < nextHandle (updateControlRange ui h' (declaredRange d))" using Cons.prems by simp
    from Cons.IH [OF this, where reg = reg]
    show ?thesis using Some by (simp add: updateControlRange_value)
  qed
qed

lemma addDeclared_alive:
  "controls ui h \<noteq> None \<Longrightarrow> controls (snd (addDeclared ds (reg, ui))) h \<noteq> None"
proof (induction ds arbitrary: reg ui)
  case Nil
  then show ?case by simp
next
  case (Cons d ds)
  let ?ui' = "snd (createControl ui (uniformName d) (defaultValue d) (declaredRange d))"
  show ?case
  proof (cases "map_of reg (uniformName d)")
    case None
    have "controls ?ui' h \<noteq> None" using Cons.prems by (simp add: createControl_def)
    from Cons.IH [OF this, where reg = "reg @ [(uniformName d, nextHandle ui)]"]
    show ?thesis using None by (simp add: createControl_def)
  next
    case (Some h')
    have "controls (updateControlRange ui h' (declaredRange d)) h \<noteq> None"
      using Cons.prems by (simp add: updateControlRange_dom)
    from Cons.IH [OF this, where reg = reg]
    show ?thesis using Some by simp
  qed
qed

lemma addDeclared_created_alive:
  "n \<in> set (map uniformName ds) \<Longrightarrow> map_of reg n = None \<Longrightarrow>
   map_of (fst (addDeclared ds (reg, ui))) n = Some h \<Longrightarrow>
   controls (snd (addDeclared ds (reg, ui))) h \<noteq> None"
proof (induction ds arbitrary: reg ui)
  case Nil
  then show ?case by simp
next
  case (Cons d ds)
  let ?ui' = "snd (createControl ui (uniformName d) (defaultValue d) (declaredRange d))"
  let ?reg' = "reg @ [(uniformName d, nextHandle ui)]"
  show ?case
  proof (cases "map_of reg (uniformName d)")
    case None
    have unfolded: "addDeclared (d # ds) (reg, ui) = addDeclared ds (?reg', ?ui')"
      using None by (simp add: createControl_def)
    show ?thesis
    proof (cases "n = uniformName d")
      case True
      have "map_of ?reg' n = Some (nextHandle ui)" using True None by (simp add: map_add_Some_iff)
      then have "map_of (fst (addDeclared ds (?reg', ?ui'))) n = Some (nextHandle ui)"
        by (rule addDeclared_keeps)
      then have "h = nextHandle ui" using Cons.prems(3) unfolded by simp
      moreover have "controls ?ui' (nextHandle ui) \<noteq> None" by (simp add: createControl_def)
      ultimately show ?thesis
        using unfolded addDeclared_alive [of ?ui' "nextHandle ui" ds ?reg'] by simp
    next
      case False
      then have "n \<in> set (map uniformName ds)" using Cons.prems by auto
      moreover have "map_of ?reg' n = None" using False Cons.prems by (simp add: map_add_def)
      ultimately show ?thesis
        using Cons.IH [where reg = ?reg' and ui = ?ui'] Cons.prems(3) unfolded by simp
    qed
  next
    case (Some h')
    then have "n \<noteq> uniformName d" using Cons.prems by auto
    then have "n \<in> set (map uniformName ds)" using Cons.prems by auto
    from Cons.IH [OF this Cons.prems(2), where ui = "updateControlRange ui h' (declaredRange d)"]
    show ?thesis using Some Cons.prems(3) by simp
  qed
qed

lemma addDeclared_wellFormed:
  "wellFormed reg ui \<Longrightarrow>
   wellFormed (fst (addDeclared ds (reg, ui))) (snd (addDeclared ds (reg, ui)))"
proof (induction ds arbitrary: reg ui)
  case Nil
  then show ?case by simp
next
  case (Cons d ds)
  let ?ui' = "snd (createControl ui (uniformName d) (defaultValue d) (declaredRange d))"
  let ?reg' = "reg @ [(uniformName d, nextHandle ui)]"
  show ?case
  proof (cases "map_of reg (uniformName d)")
    case None
    then have "uniformName d \<notin> fst ` set reg" by (simp add: map_of_eq_None_iff)
    moreover have "nextHandle ui \<notin> snd ` set reg"
      using Cons.prems by (auto simp add: wellFormed_def list_all_iff)
    ultimately have "wellFormed ?reg' ?ui'"
      using Cons.prems by (auto simp add: wellFormed_def createControl_def list_all_iff)
    from Cons.IH [OF this] show ?thesis using None by (simp add: createControl_def)
  next
    case (Some h')
    have "wellFormed reg (updateControlRange ui h' (declaredRange d))"
      using Cons.prems by (simp add: wellFormed_def)
    from Cons.IH [OF this] show ?thesis using Some by simp
  qed
qed

lemma removeUndeclared_fst:
  "fst (removeUndeclared names reg ui) = filter (\<lambda>e. fst e \<in> set names) reg"
  by (induction names reg ui rule: removeUndeclared.induct) (auto split: prod.splits)

lemma removeUndeclared_snd_Cons:
  "snd (removeUndeclared names ((n, k) # rest) ui) =
     (if n \<in> set names then snd (removeUndeclared names rest ui)
      else snd (removeUndeclared names rest (disposeControl ui k)))"
  by (simp split: prod.splits)

lemma removeUndeclared_next [simp]:
  "nextHandle (snd (removeUndeclared names reg ui)) = nextHandle ui"
  by (induction names reg ui rule: removeUndeclared.induct)
     (auto split: prod.splits simp add: disposeControl_def)

lemma removeUndeclared_controls:
  "controls (snd (removeUndeclared names reg ui)) h =
     (if h \<in> set (map snd (filter (\<lambda>e. fst e \<notin> set names) reg)) then None
      else controls ui h)"
proof (induction names reg ui rule: removeUndeclared.induct)
  case (1 names ui)
  then show ?case by simp
next
  case (2 names n k rest ui)
  show ?case
  proof (cases "n \<in> set names")
    case True
    then show ?thesis using 2 by (simp only: removeUndeclared_snd_Cons) simp
  next
    case False
    then show ?thesis
      using 2 by (simp only: removeUndeclared_snd_Cons) (simp add: disposeControl_def)
  qed
qed

lemma map_of_filter_fst:
  "map_of (filter (\<lambda>e. fst e \<in> A) reg) n = (if n \<in> A then map_of reg n else None)"
  by (induction reg) auto

lemma distinct_snd_same_name:
  "distinct (map snd reg) \<Longrightarrow> (n, h) \<in> set reg \<Longrightarrow> (n', h) \<in> set reg \<Longrightarrow> n = n'"
  by (induction reg) (auto simp add: image_iff)

lemma kept_not_disposed:
  assumes "distinct (map snd reg)" "map_of reg n = Some h" "n \<in> set names"
  shows "h \<notin> set (map snd (filter (\<lambda>e. fst e \<notin> set names) reg))"
proof
  assume "h \<in> set (map snd (filter (\<lambda>e. fst e \<notin> set names) reg))"
  then obtain n' where n': "(n', h) \<in> set reg" "n' \<notin> set names" by auto
  have "(n, h) \<in> set reg" using assms(2) by (rule map_of_SomeD)
  from distinct_snd_same_name [OF assms(1) this n'(1)] show False using assms(3) n'(2) by simp
qed

lemma reconcile_eq:
  "reconcile decls (reg, ui) =
     removeUndeclared (map uniformName decls) (fst (addDeclared decls (reg, ui)))
       (snd (addDeclared decls (reg, ui)))"
  by (simp add: reconcile_def split: prod.splits)

lemma reconcile_lookup:
  "map_of (fst (reconcile decls (reg, ui))) n =
     (if n \<in> set (map uniformName decls) then map_of (fst (addDeclared decls (reg, ui))) n
      else None)"
  by (simp only: reconcile_eq removeUndeclared_fst map_of_filter_fst)

text \<open>The invariant holds of the empty registry and survives every reconciliation.\<close>

lemma wellFormed_empty: "wellFormed [] ui"
  by (simp add: wellFormed_def)

lemma reconcile_wellFormed:
  assumes "wellFormed reg ui"
  shows "wellFormed (fst (reconcile decls (reg, ui))) (snd (reconcile decls (reg, ui)))"
proof -
  have "wellFormed (fst (addDeclared decls (reg, ui))) (snd (addDeclared decls (reg, ui)))"
    using assms by (rule addDeclared_wellFormed)
  then show ?thesis
    by (simp add: reconcile_eq removeUndeclared_fst wellFormed_def distinct_map_filter
        list_all_iff)
qed

section \<open>Facts about the controller\<close>

lemma run_snoc: "run (es @ [e]) s = step e (run es s)"
  by (simp add: run_def)

lemmas reconcile_simps = reconcile_def createControl_def updateControlRange_def
  disposeControl_def

section \<open>The claims\<close>

subsection \<open>Failure results\<close>

text \<open>
  Claim C2, on the controller modelled from the specification. Processing a Failure
  result, for any revision and in any state, leaves EntryPointRegistry,
  UniformBindingRegistry (with the controls of the UI layer) and TextureSlotRegistry
  equal to what they were before; the same holds after any sequence of events.
\<close>

theorem failure_keeps_registries:
  "entryPointRegistry (step (CompileResponse r (Failure d)) s) = entryPointRegistry s \<and>
   uniformBindingRegistry (step (CompileResponse r (Failure d)) s) = uniformBindingRegistry s \<and>
   uiLayer (step (CompileResponse r (Failure d)) s) = uiLayer s \<and>
   textureSlotRegistry (step (CompileResponse r (Failure d)) s) = textureSlotRegistry s \<and>
   entryPointRegistry (run (es @ [CompileResponse r (Failure d)]) s) =
     entryPointRegistry (run es s) \<and>
   uniformBindingRegistry (run (es @ [CompileResponse r (Failure d)]) s) =
     uniformBindingRegistry (run es s) \<and>
   textureSlotRegistry (run (es @ [CompileResponse r (Failure d)]) s) =
     textureSlotRegistry (run es s)"
  by (simp add: run_snoc onCompileResult_def)

subsection \<open>The whole-document fallback\<close>

text \<open>
  Claim C3, as amended. For a failure diagnostic whose reported row lies outside
  \<open>[1, documentLineCount)\<close>, the mapping produces exactly one marker, from line 1
  column 1 through the maximum column of the last line, carrying the summary. In
  particular, for a 10-line document and a diagnostic at row 10 whose column is the
  maximum column of row 10, the corrected row is 11 and the whole-document marker is
  produced. The test is made on the reported row, not on the corrected one: a reported
  row inside the range never gets the whole-document marker.
\<close>

theorem fallback_on_reported_row:
  "(\<not> success d \<and> m \<noteq> [] \<and> (row (position d) \<le> 0 \<or> getLineCount m \<le> row (position d)) \<longrightarrow>
      (\<exists>lastColumn.
         getLineMaxColumn m (getLineCount m) = Inr lastColumn \<and>
         mapToMarkers d m =
           Inr [\<lparr> startLineNumber = 1, startColumn = 1,
                  endLineNumber = getLineCount m, endColumn = lastColumn,
                  message = summary d, severity = Error \<rparr>])) \<and>
   (\<not> success d \<and> getLineCount m = 10 \<and> row (position d) = 10 \<and>
    getLineMaxColumn m 10 = Inr (col (position d)) \<longrightarrow>
      correctedRow d m = 11 \<and>
      mapToMarkers d m =
        Inr [\<lparr> startLineNumber = 1, startColumn = 1,
               endLineNumber = 10, endColumn = col (position d),
               message = summary d, severity = Error \<rparr>]) \<and>
   (\<not> success d \<and> 0 < row (position d) \<and> row (position d) < getLineCount m \<longrightarrow>
      mapToMarkers d m \<noteq> wholeDocumentMarker d m)"
proof (intro conjI impI)
  assume a: "\<not> success d \<and> 0 < row (position d) \<and> row (position d) < getLineCount m"
  let ?r = "if getLineMaxColumn m (row (position d)) = Inr (col (position d))
            then row (position d) + 1 else row (position d)"
  have r: "1 \<le> ?r" "?r \<le> getLineCount m" using a by auto
  have ne: "m \<noteq> []" using a by (auto simp add: getLineCount_def)
  obtain sc ec where line: "lineMarker d m ?r =
      Inr [\<lparr> startLineNumber = ?r, startColumn = sc, endLineNumber = ?r, endColumn = ec,
             message = summary d, severity = Error \<rparr>]"
    using lineMarker_valid [OF r, of d] by blast
  obtain lc where whole: "wholeDocumentMarker d m =
      Inr [\<lparr> startLineNumber = 1, startColumn = 1, endLineNumber = getLineCount m,
             endColumn = lc, message = summary d, severity = Error \<rparr>]"
    using wholeDocumentMarker_valid [OF ne, of d] by blast
  have "mapToMarkers d m = lineMarker d m ?r"
    using a by (intro mapToMarkers_in_range) auto
  moreover have "?r \<noteq> 1 \<or> ?r \<noteq> getLineCount m" using a by auto
  ultimately show "mapToMarkers d m \<noteq> wholeDocumentMarker d m"
    by (auto simp only: line whole sum.inject list.inject Marker.simps)
next
  assume a: "\<not> success d \<and> m \<noteq> [] \<and>
             (row (position d) \<le> 0 \<or> getLineCount m \<le> row (position d))"
  then have "mapToMarkers d m = wholeDocumentMarker d m"
    by (intro mapToMarkers_out_of_range) auto
  then show "\<exists>lastColumn.
         getLineMaxColumn m (getLineCount m) = Inr lastColumn \<and>
         mapToMarkers d m =
           Inr [\<lparr> startLineNumber = 1, startColumn = 1,
                  endLineNumber = getLineCount m, endColumn = lastColumn,
                  message = summary d, severity = Error \<rparr>]"
    using wholeDocumentMarker_valid [of m d] a by simp
next
  assume a: "\<not> success d \<and> getLineCount m = 10 \<and> row (position d) = 10 \<and>
             getLineMaxColumn m 10 = Inr (col (position d))"
  then show "correctedRow d m = 11" by (simp add: correctedRow_def)
next
  assume a: "\<not> success d \<and> getLineCount m = 10 \<and> row (position d) = 10 \<and>
             getLineMaxColumn m 10 = Inr (col (position d))"
  then have "mapToMarkers d m = wholeDocumentMarker d m"
    by (intro mapToMarkers_out_of_range) auto
  then show "mapToMarkers d m =
        Inr [\<lparr> startLineNumber = 1, startColumn = 1,
               endLineNumber = 10, endColumn = col (position d),
               message = summary d, severity = Error \<rparr>]"
    using a by (simp add: wholeDocumentMarker_def)
qed

theorem fallback_on_reported_row_witness:
  "\<not> success (failureAt 10 2) \<and> doc10 \<noteq> [] \<and> getLineCount doc10 = 10 \<and>
   row (position (failureAt 10 2)) = 10 \<and>
   getLineMaxColumn doc10 10 = Inr (col (position (failureAt 10 2))) \<and>
   correctedRow (failureAt 10 2) doc10 = 11 \<and>
   mapToMarkers (failureAt 10 2) doc10 =
     Inr [\<lparr> startLineNumber = 1, startColumn = 1, endLineNumber = 10, endColumn = 2,
            message = ''expected ;'', severity = Error \<rparr>] \<and>
   0 < row (position (failureAt 2 1)) \<and> row (position (failureAt 2 1)) < getLineCount doc10 \<and>
   mapToMarkers (failureAt 2 1) doc10 \<noteq> wholeDocumentMarker (failureAt 2 1) doc10"
  using fallback_on_reported_row [of "failureAt 10 2" doc10]
    fallback_on_reported_row [of "failureAt 2 1" doc10]
  by (simp add: failureAt_def doc10_def model_simps)

text \<open>
  The claim as stated fails where the reported row is the last but one and its column is
  the maximum column: in the 10-line document, row 9 column 3 is corrected to row 10,
  outside \<open>[1, 10)\<close>, and the marker is on line 10 alone, not on the whole document.
\<close>

theorem fallback_on_corrected_row_counterexample:
  "getLineCount doc10 = 10 \<and>
   getLineMaxColumn doc10 9 = Inr 3 \<and>
   correctedRow (failureAt 9 3) doc10 = 10 \<and>
   mapToMarkers (failureAt 9 3) doc10 =
     Inr [\<lparr> startLineNumber = 10, startColumn = 1, endLineNumber = 10, endColumn = 2,
            message = ''expected ;'', severity = Error \<rparr>] \<and>
   mapToMarkers (failureAt 9 3) doc10 \<noteq> wholeDocumentMarker (failureAt 9 3) doc10"
  by (simp add: failureAt_def doc10_def model_simps correctedRow_def mapToMarkers_def
      wholeDocumentMarker_def)

subsection \<open>The end-of-line correction\<close>

text \<open>
  Claim C4, as amended. For a failure diagnostic whose reported row lies in
  \<open>[1, documentLineCount)\<close>, if \<open>col\<close> equals the maximum column of the reported row the
  marker is placed on row + 1, even when row + 1 is the last line. The decision
  between the line marker and the whole-document marker is made on the reported row,
  before the correction; the line marker is placed on the corrected row.
\<close>

theorem row_advanced_after_range_test:
  "(\<not> success d \<and> 0 < row (position d) \<and> row (position d) < getLineCount m \<and>
    getLineMaxColumn m (row (position d)) = Inr (col (position d)) \<longrightarrow>
      correctedRow d m = row (position d) + 1 \<and>
      (\<exists>firstColumn lastColumn.
         getLineFirstNonWhitespaceColumn m (row (position d) + 1) = Inr firstColumn \<and>
         getLineMaxColumn m (row (position d) + 1) = Inr lastColumn \<and>
         mapToMarkers d m =
           Inr [\<lparr> startLineNumber = row (position d) + 1, startColumn = firstColumn,
                  endLineNumber = row (position d) + 1, endColumn = lastColumn,
                  message = summary d, severity = Error \<rparr>])) \<and>
   (\<not> success d \<longrightarrow>
      mapToMarkers d m =
        (if 0 < row (position d) \<and> row (position d) < getLineCount m
         then lineMarker d m (correctedRow d m)
         else wholeDocumentMarker d m))"
proof (intro conjI impI)
  assume a: "\<not> success d \<and> 0 < row (position d) \<and> row (position d) < getLineCount m \<and>
    getLineMaxColumn m (row (position d)) = Inr (col (position d))"
  then show "correctedRow d m = row (position d) + 1" by (simp add: correctedRow_def)
next
  assume a: "\<not> success d \<and> 0 < row (position d) \<and> row (position d) < getLineCount m \<and>
    getLineMaxColumn m (row (position d)) = Inr (col (position d))"
  then have "mapToMarkers d m = lineMarker d m (row (position d) + 1)"
    using mapToMarkers_in_range [of d m] by simp
  moreover have "1 \<le> row (position d) + 1" "row (position d) + 1 \<le> getLineCount m"
    using a by auto
  ultimately show "\<exists>firstColumn lastColumn.
         getLineFirstNonWhitespaceColumn m (row (position d) + 1) = Inr firstColumn \<and>
         getLineMaxColumn m (row (position d) + 1) = Inr lastColumn \<and>
         mapToMarkers d m =
           Inr [\<lparr> startLineNumber = row (position d) + 1, startColumn = firstColumn,
                  endLineNumber = row (position d) + 1, endColumn = lastColumn,
                  message = summary d, severity = Error \<rparr>]"
    using lineMarker_valid [of "row (position d) + 1" m d] by simp
next
  assume a: "\<not> success d"
  show "mapToMarkers d m =
        (if 0 < row (position d) \<and> row (position d) < getLineCount m
         then lineMarker d m (correctedRow d m)
         else wholeDocumentMarker d m)"
  proof (cases "0 < row (position d) \<and> row (position d) < getLineCount m")
    case True
    then show ?thesis
      using a mapToMarkers_in_range [of d m] by (simp add: correctedRow_def)
  next
    case False
    have "mapToMarkers d m = wholeDocumentMarker d m"
      using a False by (rule mapToMarkers_out_of_range)
    then show ?thesis by (simp only: if_not_P [OF False])
  qed
qed

text \<open>
  In the 3-line document, row 1 column 9 is the end of line 1: the marker is on line 2,
  from column 3 to column 11.
\<close>

theorem row_advanced_after_range_test_witness:
  "\<not> success (failureAt 1 9) \<and> 0 < row (position (failureAt 1 9)) \<and>
   row (position (failureAt 1 9)) < getLineCount doc3 \<and>
   getLineMaxColumn doc3 (row (position (failureAt 1 9))) = Inr (col (position (failureAt 1 9))) \<and>
   correctedRow (failureAt 1 9) doc3 = 2 \<and>
   mapToMarkers (failureAt 1 9) doc3 =
     Inr [\<lparr> startLineNumber = 2, startColumn = 3, endLineNumber = 2, endColumn = 11,
            message = ''expected ;'', severity = Error \<rparr>]"
  using row_advanced_after_range_test [of "failureAt 1 9" doc3]
  by (simp add: failureAt_def doc3_def model_simps)

text \<open>
  The claim as stated fails in the 3-line document at row 2 column 11, the end of line
  2: the corrected row 3 is outside \<open>[1, 3)\<close>, so a decision on the corrected row gives
  the whole-document marker, as the mapping in the specification's words does; the
  component has decided on row 2 and marks line 3 alone.
\<close>

theorem range_test_on_corrected_row_counterexample:
  "getLineCount doc3 = 3 \<and>
   getLineMaxColumn doc3 2 = Inr 11 \<and>
   correctedRow (failureAt 2 11) doc3 = 3 \<and>
   mapToMarkers_spec (failureAt 2 11) doc3 =
     Inr [\<lparr> startLineNumber = 1, startColumn = 1, endLineNumber = 3, endColumn = 2,
            message = ''expected ;'', severity = Error \<rparr>] \<and>
   mapToMarkers (failureAt 2 11) doc3 =
     Inr [\<lparr> startLineNumber = 3, startColumn = 1, endLineNumber = 3, endColumn = 2,
            message = ''expected ;'', severity = Error \<rparr>]"
  by (simp add: failureAt_def doc3_def model_simps correctedRow_def mapToMarkers_def
      mapToMarkers_spec_def wholeDocumentMarker_def)

subsection \<open>Success clears the markers\<close>

text \<open>
  Claim C5. For a diagnostic with \<open>success = true\<close>, whatever the document, the mapping
  gives the empty marker list, and the effect of a mounted editor replaces the markers
  set before by none.
\<close>

theorem success_clears_markers:
  "success d \<Longrightarrow>
     mapToMarkers d m = Inr [] \<and>
     parseErrorEffect (Some monaco) (Some d) = Inr (Some (monaco\<lparr> modelMarkers := [] \<rparr>))"
  by (simp add: mapToMarkers_def parseErrorEffect_def setModelMarkers_def)

theorem success_clears_markers_witness:
  "success (parseErrorAtom (initialAtoms :: unit Atoms)) \<and>
   mapToMarkers (parseErrorAtom (initialAtoms :: unit Atoms)) doc3 = Inr [] \<and>
   parseErrorEffect
     (Some \<lparr> textModel = doc3,
             modelMarkers = [\<lparr> startLineNumber = 1, startColumn = 1, endLineNumber = 3,
                              endColumn = 2, message = ''expected ;'', severity = Error \<rparr>] \<rparr>)
     (Some (parseErrorAtom (initialAtoms :: unit Atoms)))
     = Inr (Some \<lparr> textModel = doc3, modelMarkers = [] \<rparr>)"
proof -
  have h: "success (parseErrorAtom (initialAtoms :: unit Atoms))"
    by (simp add: initialAtoms_def)
  show ?thesis
    using h success_clears_markers [OF h, of doc3
      "\<lparr> textModel = doc3,
         modelMarkers = [\<lparr> startLineNumber = 1, startColumn = 1, endLineNumber = 3,
                          endColumn = 2, message = ''expected ;'', severity = Error \<rparr>] \<rparr>"]
    by simp
qed

subsection \<open>The single-line marker\<close>

text \<open>
  Claim C6, as amended. For a failure diagnostic whose corrected row lies within
  \<open>[1, documentLineCount)\<close>, the mapping produces a single marker on that row, from the
  row's first non-whitespace column to its maximum column, with the summary as message
  and severity error. In particular, for a 10-line document and the diagnostic at row
  5, column 3, where row 5's first non-whitespace column is 2 and its maximum column is
  not 3, the marker spans row 5 from column 2 to the maximum column of row 5.
\<close>

theorem marker_on_corrected_row:
  "(\<not> success d \<and> 1 \<le> correctedRow d m \<and> correctedRow d m < getLineCount m \<longrightarrow>
      (\<exists>firstColumn lastColumn.
         getLineFirstNonWhitespaceColumn m (correctedRow d m) = Inr firstColumn \<and>
         getLineMaxColumn m (correctedRow d m) = Inr lastColumn \<and>
         mapToMarkers d m =
           Inr [\<lparr> startLineNumber = correctedRow d m, startColumn = firstColumn,
                  endLineNumber = correctedRow d m, endColumn = lastColumn,
                  message = summary d, severity = Error \<rparr>])) \<and>
   (\<not> success d \<and> getLineCount m = 10 \<and> position d = \<lparr> row = 5, col = 3 \<rparr> \<and>
    getLineFirstNonWhitespaceColumn m 5 = Inr 2 \<and> getLineMaxColumn m 5 \<noteq> Inr 3 \<longrightarrow>
      (\<exists>lastColumn.
         getLineMaxColumn m 5 = Inr lastColumn \<and>
         mapToMarkers d m =
           Inr [\<lparr> startLineNumber = 5, startColumn = 2,
                  endLineNumber = 5, endColumn = lastColumn,
                  message = summary d, severity = Error \<rparr>]))"
proof (intro conjI impI)
  assume a: "\<not> success d \<and> 1 \<le> correctedRow d m \<and> correctedRow d m < getLineCount m"
  then have r: "0 < row (position d) \<and> row (position d) < getLineCount m \<and>
         correctedRow d m = (if getLineMaxColumn m (row (position d)) = Inr (col (position d))
                           then row (position d) + 1 else row (position d))"
    using correctedRow_in_range by blast
  then have "mapToMarkers d m = lineMarker d m (correctedRow d m)"
    using a mapToMarkers_in_range [of d m] by simp
  moreover have "1 \<le> correctedRow d m" "correctedRow d m \<le> getLineCount m" using a by auto
  ultimately show "\<exists>firstColumn lastColumn.
         getLineFirstNonWhitespaceColumn m (correctedRow d m) = Inr firstColumn \<and>
         getLineMaxColumn m (correctedRow d m) = Inr lastColumn \<and>
         mapToMarkers d m =
           Inr [\<lparr> startLineNumber = correctedRow d m, startColumn = firstColumn,
                  endLineNumber = correctedRow d m, endColumn = lastColumn,
                  message = summary d, severity = Error \<rparr>]"
    using lineMarker_valid [of "correctedRow d m" m d] by simp
next
  assume a: "\<not> success d \<and> getLineCount m = 10 \<and> position d = \<lparr> row = 5, col = 3 \<rparr> \<and>
    getLineFirstNonWhitespaceColumn m 5 = Inr 2 \<and> getLineMaxColumn m 5 \<noteq> Inr 3"
  then have "mapToMarkers d m = lineMarker d m 5"
    using mapToMarkers_in_range [of d m] by simp
  moreover have "(1::int) \<le> 5" "5 \<le> getLineCount m" using a by auto
  ultimately show "\<exists>lastColumn.
         getLineMaxColumn m 5 = Inr lastColumn \<and>
         mapToMarkers d m =
           Inr [\<lparr> startLineNumber = 5, startColumn = 2,
                  endLineNumber = 5, endColumn = lastColumn,
                  message = summary d, severity = Error \<rparr>]"
    using lineMarker_valid [of 5 m d] a by auto
qed

theorem marker_on_corrected_row_witness:
  "\<not> success (failureAt 5 3) \<and> getLineCount doc10b = 10 \<and>
   position (failureAt 5 3) = \<lparr> row = 5, col = 3 \<rparr> \<and>
   getLineFirstNonWhitespaceColumn doc10b 5 = Inr 2 \<and>
   getLineMaxColumn doc10b 5 \<noteq> Inr 3 \<and>
   correctedRow (failureAt 5 3) doc10b = 5 \<and>
   1 \<le> correctedRow (failureAt 5 3) doc10b \<and>
   correctedRow (failureAt 5 3) doc10b < getLineCount doc10b \<and>
   mapToMarkers (failureAt 5 3) doc10b =
     Inr [\<lparr> startLineNumber = 5, startColumn = 2, endLineNumber = 5, endColumn = 12,
            message = ''expected ;'', severity = Error \<rparr>]"
  using marker_on_corrected_row [of "failureAt 5 3" doc10b]
  by (simp add: failureAt_def doc10b_def model_simps correctedRow_def)

text \<open>
  The example of the claim as stated fails where column 3 is the maximum column of row
  5: in the 10-line document whose line 5 is a space and one character (first
  non-whitespace column 2), the diagnostic at row 5, column 3 is marked on row 6.
\<close>

theorem row5_col3_counterexample:
  "getLineCount doc10 = 10 \<and>
   getLineFirstNonWhitespaceColumn doc10 5 = Inr 2 \<and>
   getLineMaxColumn doc10 5 = Inr 3 \<and>
   mapToMarkers (failureAt 5 3) doc10 =
     Inr [\<lparr> startLineNumber = 6, startColumn = 5, endLineNumber = 6, endColumn = 6,
            message = ''expected ;'', severity = Error \<rparr>] \<and>
   mapToMarkers (failureAt 5 3) doc10 \<noteq>
     Inr [\<lparr> startLineNumber = 5, startColumn = 2, endLineNumber = 5, endColumn = 3,
            message = ''expected ;'', severity = Error \<rparr>]"
  by (simp add: failureAt_def doc10_def model_simps mapToMarkers_def)

subsection \<open>The code store\<close>

text \<open>
  Claim C7, as amended. The code store is the atom \<open>codeAtom\<close>, which holds the
  current text and nothing else: it starts as the default shader, \<open>setText\<close> replaces
  the text and changes no other atom, and a read returns the text last set. There is
  no revision counter: the store after an edit depends on the new text only, so no
  function of the store goes up by one at every edit.
\<close>

theorem codeAtom_holds_text_only:
  "codeAtom (initialAtoms :: 'r Atoms) = DEFAULT_SHADER \<and>
   codeAtom (setCode t (a :: 'r Atoms)) = t \<and>
   setCode t a = a\<lparr> codeAtom := t \<rparr> \<and>
   setCode t (setCode u a) = setCode t a \<and>
   \<not> (\<exists>revisionOf :: 'r Atoms \<Rightarrow> nat. \<forall>t' a'. revisionOf (setCode t' a') = revisionOf a' + 1)"
proof -
  have "\<not> (\<exists>revisionOf :: 'r Atoms \<Rightarrow> nat. \<forall>t' a'. revisionOf (setCode t' a') = revisionOf a' + 1)"
  proof
    assume "\<exists>revisionOf :: 'r Atoms \<Rightarrow> nat. \<forall>t' a'. revisionOf (setCode t' a') = revisionOf a' + 1"
    then obtain revisionOf :: "'r Atoms \<Rightarrow> nat"
      where inc: "\<And>t' a'. revisionOf (setCode t' a') = revisionOf a' + 1" by blast
    have "revisionOf (setCode [] (setCode [] initialAtoms)) = revisionOf (setCode [] initialAtoms) + 1"
      by (rule inc)
    moreover have "setCode [] (setCode [] (initialAtoms :: 'r Atoms)) = setCode [] initialAtoms"
      by (simp add: setCode_def)
    ultimately show False by simp
  qed
  then show ?thesis by (simp add: setCode_def initialAtoms_def)
qed

text \<open>
  The claim as stated fails: after the edit to \<open>''a''\<close>, a second edit to the same text
  leaves the store exactly as it was, and the store reached by two edits is the store
  reached by one. A revision that every \<open>setText\<close> increments would tell them apart.
\<close>

theorem no_revision_counterexample:
  "setCode ''a'' (setCode ''a'' (initialAtoms :: unit Atoms)) = setCode ''a'' initialAtoms \<and>
   setCode ''a'' (setCode ''b'' (initialAtoms :: unit Atoms)) = setCode ''a'' initialAtoms \<and>
   codeAtom (setCode ''a'' (setCode ''b'' (initialAtoms :: unit Atoms))) = ''a''"
  by (simp add: setCode_def)

subsection \<open>Reconciliation of the uniform bindings\<close>

text \<open>
  Claim C8, on the reconciliation modelled from the specification. Reconciling a
  well-formed registry against new declarations keeps, for every name in both, the
  handle it had, and the value of its control; leaves no association for a name that is
  not declared, and the control such a name had is disposed; and gives every name that
  is only declared a handle that was not in the registry, with a live control.
\<close>

theorem reconcile_uniforms:
  assumes wf: "wellFormed reg ui"
  shows "(\<forall>n h. n \<in> set (map uniformName decls) \<and> map_of reg n = Some h \<longrightarrow>
            map_of (fst (reconcile decls (reg, ui))) n = Some h \<and>
            map_option controlValue (controls (snd (reconcile decls (reg, ui))) h) =
              map_option controlValue (controls ui h)) \<and>
         (\<forall>n. n \<notin> set (map uniformName decls) \<longrightarrow>
            map_of (fst (reconcile decls (reg, ui))) n = None \<and>
            (\<forall>h. map_of reg n = Some h \<longrightarrow>
               controls (snd (reconcile decls (reg, ui))) h = None)) \<and>
         (\<forall>n. n \<in> set (map uniformName decls) \<and> map_of reg n = None \<longrightarrow>
            (\<exists>h. map_of (fst (reconcile decls (reg, ui))) n = Some h \<and>
                 nextHandle ui \<le> h \<and> h \<notin> set (map snd reg) \<and>
                 controls (snd (reconcile decls (reg, ui))) h \<noteq> None))"
proof (intro conjI allI impI)
  let ?names = "map uniformName decls"
  let ?reg1 = "fst (addDeclared decls (reg, ui))"
  let ?ui1 = "snd (addDeclared decls (reg, ui))"
  have wf1: "wellFormed ?reg1 ?ui1" using wf by (rule addDeclared_wellFormed)
  then have d1: "distinct (map snd ?reg1)" by (simp add: wellFormed_def)
  have ctl: "\<And>h. controls (snd (reconcile decls (reg, ui))) h =
     (if h \<in> set (map snd (filter (\<lambda>e. fst e \<notin> set ?names) ?reg1)) then None
      else controls ?ui1 h)"
    by (simp only: reconcile_eq removeUndeclared_controls)
  {
    fix n h
    assume a: "n \<in> set ?names \<and> map_of reg n = Some h"
    then have k: "map_of ?reg1 n = Some h" by (simp add: addDeclared_keeps)
    show "map_of (fst (reconcile decls (reg, ui))) n = Some h"
      using a k by (simp only: reconcile_lookup) simp
    have "(n, h) \<in> set reg" using a by (simp add: map_of_SomeD)
    then have lt: "h < nextHandle ui" using wf by (auto simp add: wellFormed_def list_all_iff)
    have "h \<notin> set (map snd (filter (\<lambda>e. fst e \<notin> set ?names) ?reg1))"
      using d1 k a by (intro kept_not_disposed) auto
    then have "controls (snd (reconcile decls (reg, ui))) h = controls ?ui1 h"
      by (simp only: ctl if_False)
    then show "map_option controlValue (controls (snd (reconcile decls (reg, ui))) h) =
              map_option controlValue (controls ui h)"
      using addDeclared_value [OF lt, of decls reg] by simp
  }
  {
    fix n
    assume a: "n \<notin> set ?names"
    then show "map_of (fst (reconcile decls (reg, ui))) n = None"
      by (simp only: reconcile_lookup) simp
    fix h
    assume "map_of reg n = Some h"
    then have "map_of ?reg1 n = Some h" by (simp add: addDeclared_keeps)
    then have "(n, h) \<in> set ?reg1" by (rule map_of_SomeD)
    then have "h \<in> set (map snd (filter (\<lambda>e. fst e \<notin> set ?names) ?reg1))"
      using a by force
    then show "controls (snd (reconcile decls (reg, ui))) h = None"
      by (simp only: ctl if_True)
  }
  {
    fix n
    assume a: "n \<in> set ?names \<and> map_of reg n = None"
    then obtain h where h: "map_of ?reg1 n = Some h" "nextHandle ui \<le> h"
      using addDeclared_creates [of n decls reg ui] by blast
    have alive: "controls ?ui1 h \<noteq> None"
      using a h(1) addDeclared_created_alive [of n decls reg ui h] by simp
    have "h \<notin> set (map snd (filter (\<lambda>e. fst e \<notin> set ?names) ?reg1))"
      using d1 h(1) a by (intro kept_not_disposed) auto
    then have "controls (snd (reconcile decls (reg, ui))) h = controls ?ui1 h"
      by (simp only: ctl if_False)
    moreover have "h \<notin> set (map snd reg)"
      using wf h(2) by (auto simp add: wellFormed_def list_all_iff)
    moreover have "map_of (fst (reconcile decls (reg, ui))) n = Some h"
      using a h(1) by (simp only: reconcile_lookup) simp
    ultimately show "\<exists>h. map_of (fst (reconcile decls (reg, ui))) n = Some h \<and>
                 nextHandle ui \<le> h \<and> h \<notin> set (map snd reg) \<and>
                 controls (snd (reconcile decls (reg, ui))) h \<noteq> None"
      using h(2) alive by auto
  }
qed

text \<open>
  Reconciling the uniforms \<open>a\<close>, \<open>b\<close> against \<open>b\<close>, \<open>c\<close>: \<open>b\<close> keeps handle 1 and
  its value 7 (with the new range), the control of \<open>a\<close> is disposed, and \<open>c\<close> gets the
  new handle 2 with its default.
\<close>

theorem reconcile_uniforms_witness:
  "wellFormed regAB uiAB \<and>
   map_of regAB ''a'' = Some 0 \<and> map_of regAB ''b'' = Some 1 \<and> map_of regAB ''c'' = None \<and>
   fst (reconcile declsBC (regAB, uiAB)) = [(''b'', 1), (''c'', 2)] \<and>
   controls (snd (reconcile declsBC (regAB, uiAB))) 0 = None \<and>
   controls (snd (reconcile declsBC (regAB, uiAB))) 1 =
     Some \<lparr> controlName = ''b'', controlValue = 7, controlRange = (0, 20) \<rparr> \<and>
   controls (snd (reconcile declsBC (regAB, uiAB))) 2 =
     Some \<lparr> controlName = ''c'', controlValue = 1, controlRange = (0, 2) \<rparr>"
proof -
  have wf: "wellFormed regAB uiAB"
    by (simp add: wellFormed_def regAB_def uiAB_def)
  show ?thesis
    using wf reconcile_uniforms [OF wf, of declsBC]
    by (simp add: reconcile_simps declsBC_def regAB_def uiAB_def)
qed

subsection \<open>At most one marker\<close>

text \<open>
  Claim C9. For every diagnostic and every document of the editor, the mapping returns
  (the text model never throws) and produces no marker when \<open>success\<close> holds and
  exactly one marker otherwise; it never produces two or more.
\<close>

theorem at_most_one_marker:
  "m \<noteq> [] \<Longrightarrow>
     \<exists>ms. mapToMarkers d m = Inr ms \<and> length ms = (if success d then 0 else 1) \<and>
          length ms \<le> 1"
proof (cases "success d")
  case True
  then show ?thesis by (simp add: mapToMarkers_def)
next
  case False
  assume ne: "m \<noteq> []"
  show ?thesis
  proof (cases "0 < row (position d) \<and> row (position d) < getLineCount m")
    case True
    let ?r = "if getLineMaxColumn m (row (position d)) = Inr (col (position d))
                           then row (position d) + 1 else row (position d)"
    have "1 \<le> ?r" "?r \<le> getLineCount m" using True by auto
    from lineMarker_valid [OF this, of d] mapToMarkers_in_range [of d m] True False
    show ?thesis by auto
  next
    case out: False
    from wholeDocumentMarker_valid [OF ne, of d] mapToMarkers_out_of_range [OF False out]
    show ?thesis using False by auto
  qed
qed

theorem at_most_one_marker_witness:
  "doc3 \<noteq> [] \<and>
   mapToMarkers (failureAt 2 4) doc3 =
     Inr [\<lparr> startLineNumber = 2, startColumn = 3, endLineNumber = 2, endColumn = 11,
            message = ''expected ;'', severity = Error \<rparr>] \<and>
   length [\<lparr> startLineNumber = 2, startColumn = 3, endLineNumber = 2, endColumn = 11,
            message = ''expected ;'', severity = Error \<rparr>] = (1::nat)"
proof -
  have ne: "doc3 \<noteq> []" by (simp add: doc3_def)
  show ?thesis
    using ne at_most_one_marker [OF ne, of "failureAt 2 4"]
    by (simp add: failureAt_def doc3_def model_simps mapToMarkers_def)
qed

subsection \<open>The initial state\<close>

text \<open>
  Claim C10. Before any compile has completed the atoms hold: playing true; reset, hot
  reload and manual reload false; the diagnostic with \<open>success = true\<close>, an empty
  summary and position row 0, column 0 (so no marker is shown); no entry point; and
  exactly two texture slots, both \<open>/textures/blank.png\<close>.
\<close>

theorem initial_atoms:
  "playAtom (initialAtoms :: 'r Atoms) = True \<and>
   resetAtom (initialAtoms :: 'r Atoms) = False \<and>
   hotReloadAtom (initialAtoms :: 'r Atoms) = False \<and>
   manualReloadAtom (initialAtoms :: 'r Atoms) = False \<and>
   parseErrorAtom (initialAtoms :: 'r Atoms) =
     \<lparr> summary = [], position = \<lparr> row = 0, col = 0 \<rparr>, success = True \<rparr> \<and>
   mapToMarkers (parseErrorAtom (initialAtoms :: 'r Atoms)) m = Inr [] \<and>
   entryPointsAtom (initialAtoms :: 'r Atoms) = [] \<and>
   loadedTexturesAtom (initialAtoms :: 'r Atoms) =
     [''/textures/blank.png'', ''/textures/blank.png''] \<and>
   length (loadedTexturesAtom (initialAtoms :: 'r Atoms)) = 2"
  by (simp add: initialAtoms_def mapToMarkers_def)

end
